theory Spec2Isabelle
  imports Main "HOL-Library.AList" "HOL-Library.Sublist"
begin

section \<open>JavaScript values the plugin handles\<close>

text \<open>
  The plugin (\<^verbatim>\<open>src/plugin.js\<close>) is a browser script. Its objects are modelled as
  records, its tagged values as datatypes, and every \<^verbatim>\<open>async\<close> function as one
  function per stretch of code between two \<^verbatim>\<open>await\<close>s: the outcome of the awaited
  remote call is an argument of the stretch that runs after it.
\<close>

text \<open>
  An optional string field of a JSON object (\<^verbatim>\<open>item.title\<close>, \<^verbatim>\<open>item.name\<close>):
  absent, \<^verbatim>\<open>null\<close> or a string.
\<close>

datatype js_string = Undefined | Null | Str string

text \<open>\<^verbatim>\<open>Boolean(v)\<close>: only a non-empty string is truthy.\<close>

fun truthy :: "js_string \<Rightarrow> bool" where
  "truthy (Str s) = (s \<noteq> [])"
| "truthy _ = False"

text \<open>\<^verbatim>\<open>a || b\<close>\<close>

definition js_or :: "js_string \<Rightarrow> js_string \<Rightarrow> js_string" where
  "js_or a b = (if truthy a then a else b)"

text \<open>The conversion a template literal applies: \<^verbatim>\<open>`${v}`\<close>.\<close>

fun to_string :: "js_string \<Rightarrow> string" where
  "to_string Undefined = ''undefined''"
| "to_string Null = ''null''"
| "to_string (Str s) = s"

text \<open>
  Identifiers are the non-negative integers the remote service assigns; \<^verbatim>\<open>String(n)\<close>
  of such a number is its decimal numeral.
\<close>

definition digit_char :: "nat \<Rightarrow> char" where
  "digit_char d = ''0123456789'' ! (d mod 10)"

function show_nat :: "nat \<Rightarrow> string" where
  "show_nat n = (if n < 10 then [digit_char n] else show_nat (n div 10) @ [digit_char n])"
  by pat_completeness auto
termination
  by (relation "measure id") auto

declare show_nat.simps [simp del]

section \<open>The server connector\<close>

text \<open>\<^verbatim>\<open>JellyseerrServerConnector\<close>: its two fields.\<close>

record connector =
  baseUrl :: string
  apiKey :: string

datatype media_type = Movie | Tv

text \<open>The body of \<^verbatim>\<open>POST /request\<close>.\<close>

record request_body =
  mediaId :: nat
  mediaType :: media_type

text \<open>What \<^verbatim>\<open>makeRequest\<close> hands to \<^verbatim>\<open>fetch\<close>: the url and the options object.\<close>

record request =
  req_url :: string
  req_method :: string
  req_api_key :: string
  req_body :: "request_body option"

text \<open>
  \<^verbatim>\<open>makeRequest(endpoint, method = 'GET', data = null)\<close> up to its \<^verbatim>\<open>await fetch\<close>:
  the body is attached only when there is data and the method is POST or PUT.
\<close>

definition build_request :: "connector \<Rightarrow> string \<Rightarrow> string \<Rightarrow> request_body option \<Rightarrow> request" where
  "build_request c endpoint method data =
     \<lparr>req_url = baseUrl c @ ''/api/v1'' @ endpoint,
      req_method = method,
      req_api_key = apiKey c,
      req_body = (if data \<noteq> None \<and> (method = ''POST'' \<or> method = ''PUT'') then data else None)\<rparr>"

text \<open>
  What comes back from \<^verbatim>\<open>fetch\<close>: the promise rejects (no connection), or a response
  arrives with a status and a body. The body is \<open>None\<close> when it is not JSON of the
  shape the caller reads (\<^verbatim>\<open>response.json()\<close> rejects, or the caller's first access
  to the value throws a TypeError inside the same \<^verbatim>\<open>try\<close>).
\<close>

datatype 'a fetch_outcome = Rejected | Responded nat string "'a option"

datatype api_error = TransportError | ApiError nat string | BodyError

text \<open>\<^verbatim>\<open>response.ok\<close>\<close>

definition response_ok :: "nat \<Rightarrow> bool" where
  "response_ok status = (200 \<le> status \<and> status \<le> 299)"

text \<open>\<^verbatim>\<open>makeRequest\<close> after its \<^verbatim>\<open>await fetch\<close>: it throws or returns the parsed body.\<close>

fun makeRequest :: "'a fetch_outcome \<Rightarrow> api_error + 'a" where
  "makeRequest Rejected = Inl TransportError"
| "makeRequest (Responded status statusText body) =
     (if \<not> response_ok status then Inl (ApiError status statusText)
      else case body of None \<Rightarrow> Inl BodyError | Some v \<Rightarrow> Inr v)"

definition getNetworks :: "connector \<Rightarrow> request" where
  "getNetworks c = build_request c ''/networks'' ''GET'' None"

definition getStudios :: "connector \<Rightarrow> request" where
  "getStudios c = build_request c ''/studios'' ''GET'' None"

definition getNetworkContent :: "connector \<Rightarrow> string \<Rightarrow> request" where
  "getNetworkContent c networkId = build_request c (''/network/'' @ networkId @ ''/content'') ''GET'' None"

definition getStudioContent :: "connector \<Rightarrow> string \<Rightarrow> request" where
  "getStudioContent c studioId = build_request c (''/studio/'' @ studioId @ ''/content'') ''GET'' None"

definition requestContent_call :: "connector \<Rightarrow> nat \<Rightarrow> media_type \<Rightarrow> request" where
  "requestContent_call c i mt =
     build_request c ''/request'' ''POST'' (Some \<lparr>mediaId = i, mediaType = mt\<rparr>)"

section \<open>The catalog caches and their refresh\<close>

record entity =
  entity_id :: nat
  entity_name :: string
  logoPath :: "string option"

text \<open>
  A cache is a plain object used as a dictionary: its own properties, keyed by the
  string form of the entity id. The keys of the list are distinct; its order is not the
  order in which JavaScript enumerates the properties, and nothing below reads it.
\<close>

type_synonym cache = "(string \<times> entity) list"

text \<open>
  \<^verbatim>\<open>data.reduce((acc, e) => { acc[e.id] = e; return acc; }, {})\<close>: a fresh object, one
  assignment per element from left to right, a later element replacing an earlier one
  with the same id.
\<close>

definition build_cache :: "entity list \<Rightarrow> cache" where
  "build_cache data = fold (\<lambda>e acc. AList.update (show_nat (entity_id e)) e acc) data []"

text \<open>What the plugin writes besides its fields and the page, in the order it does.\<close>

datatype effect =
    LogRefreshing
  | LogRefreshed nat nat
  | ErrorRefreshing api_error
  | ErrorRequesting nat api_error
  | ErrorFetching string api_error
  | Fetch request
  | UpdateUI

text \<open>
  The fields of \<^verbatim>\<open>JellyseerrIntegrationPlugin\<close> that \<^verbatim>\<open>refreshData\<close> reads and
  writes, and the trace of its effects. \<open>UpdateUI\<close> stands for the call of
  \<^verbatim>\<open>updateUI()\<close>, which redraws the views from the caches and writes none of these
  fields.
\<close>

record plugin =
  serverConnector :: connector
  networkCache :: cache
  studioCache :: cache
  lastRefresh :: "nat option"
  trace :: "effect list"

text \<open>The constructor: empty caches, no refresh yet.\<close>

definition new_plugin :: "connector \<Rightarrow> plugin" where
  "new_plugin c =
     \<lparr>serverConnector = c, networkCache = [], studioCache = [], lastRefresh = None, trace = []\<rparr>"

definition emit :: "effect \<Rightarrow> plugin \<Rightarrow> plugin" where
  "emit e p = p\<lparr>trace := trace p @ [e]\<rparr>"

text \<open>
  \<^verbatim>\<open>refreshData\<close> up to its first \<^verbatim>\<open>await\<close>: the log line, the time stamp
  (\<open>now\<close> is what \<^verbatim>\<open>new Date()\<close> reads), then the networks request is sent.
\<close>

definition refreshData_start :: "nat \<Rightarrow> plugin \<Rightarrow> plugin" where
  "refreshData_start now p =
     emit (Fetch (getNetworks (serverConnector p)))
       ((emit LogRefreshing p)\<lparr>lastRefresh := Some now\<rparr>)"

text \<open>
  A stretch of an \<^verbatim>\<open>async\<close> function ends at the next \<^verbatim>\<open>await\<close> or at the
  function's end.
\<close>

datatype 'a stretch = Awaiting 'a | Finished 'a

text \<open>
  From the networks answer to the second \<^verbatim>\<open>await\<close>. A failure is thrown inside
  the \<^verbatim>\<open>try\<close>: control goes to the \<^verbatim>\<open>catch\<close>, which logs and ends the function.
\<close>

definition refreshData_networks :: "entity list fetch_outcome \<Rightarrow> plugin \<Rightarrow> plugin stretch" where
  "refreshData_networks answer p =
     (case makeRequest answer of
        Inl err \<Rightarrow> Finished (emit (ErrorRefreshing err) p)
      | Inr networksData \<Rightarrow>
          Awaiting (emit (Fetch (getStudios (serverConnector p)))
                      (p\<lparr>networkCache := build_cache networksData\<rparr>)))"

text \<open>From the studios answer to the end.\<close>

definition refreshData_studios :: "entity list fetch_outcome \<Rightarrow> plugin \<Rightarrow> plugin" where
  "refreshData_studios answer p =
     (case makeRequest answer of
        Inl err \<Rightarrow> emit (ErrorRefreshing err) p
      | Inr studiosData \<Rightarrow>
          (let p' = p\<lparr>studioCache := build_cache studiosData\<rparr>
           in emit UpdateUI
                (emit (LogRefreshed (length (networkCache p')) (length (studioCache p'))) p')))"

text \<open>One whole invocation, nothing else running in between.\<close>

definition refreshData :: "nat \<Rightarrow> entity list fetch_outcome \<Rightarrow> entity list fetch_outcome \<Rightarrow> plugin \<Rightarrow> plugin" where
  "refreshData now networksAnswer studiosAnswer p =
     (case refreshData_networks networksAnswer (refreshData_start now p) of
        Finished p' \<Rightarrow> p'
      | Awaiting p' \<Rightarrow> refreshData_studios studiosAnswer p')"

text \<open>The requests an invocation has sent, read off the trace.\<close>

fun fetches :: "effect list \<Rightarrow> request list" where
  "fetches [] = []"
| "fetches (Fetch r # es) = r # fetches es"
| "fetches (_ # es) = fetches es"


section \<open>Content items and their cards\<close>

text \<open>
  A content item as the remote service sends it. Its id is a number and its media type
  one of \<^verbatim>\<open>"movie"\<close> and \<^verbatim>\<open>"tv"\<close> (the API notes at the end of the source);
  \<^verbatim>\<open>available\<close> is read for its truth value only.
\<close>

record item =
  item_id :: nat
  item_mediaType :: media_type
  item_title :: js_string
  item_name :: js_string
  available :: bool

text \<open>\<^verbatim>\<open>item.title || item.name\<close>, as a template literal prints it.\<close>

definition display_name :: "item \<Rightarrow> string" where
  "display_name it = to_string (js_or (item_title it) (item_name it))"

text \<open>The three classes the availability badge takes.\<close>

datatype badge = Badge_available | Badge_not_available | Badge_requested

text \<open>
  A \<^verbatim>\<open>.content-card\<close> element: its two data attributes, its badge (what
  \<^verbatim>\<open>querySelector('.availability-badge')\<close> finds, if anything), the value its title
  was set from, and whether it holds a \<^verbatim>\<open>.request-button\<close>. Images and the year
  line are left out.
\<close>

record card =
  data_id :: nat
  data_media_type :: media_type
  badge :: "badge option"
  card_title :: js_string
  request_button :: bool

definition createContentCard :: "item \<Rightarrow> card" where
  "createContentCard it =
     \<lparr>data_id = item_id it,
      data_media_type = item_mediaType it,
      badge = Some (if available it then Badge_available else Badge_not_available),
      card_title = js_or (item_title it) (item_name it),
      request_button = (\<not> available it)\<rparr>"

record content_section =
  section_title :: string
  section_cards :: "card list"

definition createContentSection :: "string \<Rightarrow> item list \<Rightarrow> content_section" where
  "createContentSection t items = \<lparr>section_title = t, section_cards = map createContentCard items\<rparr>"

text \<open>
  The answer of a content request: \<^verbatim>\<open>{movies: [...], tvShows: [...]}\<close>, where either
  field may be missing.
\<close>

record content =
  movies :: "item list option"
  tvShows :: "item list option"

text \<open>
  \<^verbatim>\<open>if (content.movies && content.movies.length > 0) { ... appendChild(section) }\<close>:
  a group makes a section when it is there and not empty.
\<close>

definition group_section :: "string \<Rightarrow> item list option \<Rightarrow> content_section list" where
  "group_section t g =
     (case g of
        None \<Rightarrow> []
      | Some items \<Rightarrow> if length items > 0 then [createContentSection t items] else [])"

text \<open>The two guarded \<^verbatim>\<open>appendChild\<close> calls of the content pages.\<close>

definition content_sections :: "content \<Rightarrow> content_section list" where
  "content_sections c =
     group_section ''Movies'' (movies c) @ group_section ''TV Shows'' (tvShows c)"

section \<open>The document\<close>

datatype catalog = Network | Studio

text \<open>
  Reading \<^verbatim>\<open>cache[key]\<close>: an own property, or else a property every plain object
  inherits from \<^verbatim>\<open>Object.prototype\<close>, or else \<^verbatim>\<open>undefined\<close>. The inherited values
  are functions and objects, so they are truthy.
\<close>

definition object_prototype :: "string list" where
  "object_prototype =
     [''constructor'', ''hasOwnProperty'', ''isPrototypeOf'', ''propertyIsEnumerable'',
      ''toLocaleString'', ''toString'', ''valueOf'', ''__proto__'',
      ''__defineGetter__'', ''__defineSetter__'', ''__lookupGetter__'', ''__lookupSetter__'']"

datatype lookup = Missing | Own entity | Inherited string

definition js_get :: "cache \<Rightarrow> string \<Rightarrow> lookup" where
  "js_get c k =
     (case map_of c k of
        Some e \<Rightarrow> Own e
      | None \<Rightarrow> if k \<in> set object_prototype then Inherited k else Missing)"

text \<open>
  A child of \<^verbatim>\<open>#content-container\<close>: the not-found heading, the browse page (drawn
  from the two caches), or a content page with its header, its sections and, when the
  content request failed, its error message.
\<close>

datatype page =
    Not_found catalog
  | Browse_page cache cache
  | Content_page catalog lookup "content_section list" bool

datatype severity = Info | Success | Error

text \<open>
  A \<^verbatim>\<open>.jellyseerr-notification\<close> element. \<open>n_id\<close> stands for the identity of the
  element, which the two timer callbacks close over.
\<close>

record notification =
  n_id :: nat
  n_title :: string
  n_message :: string
  n_type :: severity
  fade_out :: bool

datatype timer_action = Add_fade_out nat | Remove_notification nat

type_synonym timer = "nat \<times> timer_action"

text \<open>
  The document and the browser around it: the children of \<^verbatim>\<open>#content-container\<close>
  (\<open>None\<close> when the page has no such element), the children of the notification
  container (none yet when it has not been created), the pending timers, each with the
  time in milliseconds at which it is due, the clock, the next element identity, and the
  trace of requests and console lines.
\<close>

record document =
  container :: "page list option"
  notifications :: "notification list"
  timers :: "timer list"
  clock :: nat
  next_id :: nat
  doc_trace :: "effect list"

definition new_document :: document where
  "new_document =
     \<lparr>container = Some [], notifications = [], timers = [], clock = 0, next_id = 0, doc_trace = []\<rparr>"

definition doc_emit :: "effect \<Rightarrow> document \<Rightarrow> document" where
  "doc_emit e d = d\<lparr>doc_trace := doc_trace d @ [e]\<rparr>"

fun page_cards :: "page \<Rightarrow> card list" where
  "page_cards (Content_page k h secs err) = concat (map section_cards secs)"
| "page_cards _ = []"

text \<open>\<^verbatim>\<open>document.querySelectorAll('.content-card')\<close>, in document order.\<close>

definition document_cards :: "document \<Rightarrow> card list" where
  "document_cards d = (case container d of None \<Rightarrow> [] | Some ps \<Rightarrow> concat (map page_cards ps))"

fun map_page_cards :: "(card \<Rightarrow> card) \<Rightarrow> page \<Rightarrow> page" where
  "map_page_cards f (Content_page k h secs err) =
     Content_page k h (map (\<lambda>s. s\<lparr>section_cards := map f (section_cards s)\<rparr>) secs) err"
| "map_page_cards f pg = pg"

definition map_cards :: "(card \<Rightarrow> card) \<Rightarrow> document \<Rightarrow> document" where
  "map_cards f d = d\<lparr>container := map_option (map (map_page_cards f)) (container d)\<rparr>"

section \<open>Notifications and their timers\<close>

text \<open>
  \<^verbatim>\<open>showNotification(title, message, type)\<close>: the element is appended to the
  notification container and a timer of 5000 ms is set for the first callback.
\<close>

definition showNotification :: "string \<Rightarrow> string \<Rightarrow> severity \<Rightarrow> document \<Rightarrow> document" where
  "showNotification t m s d =
     d\<lparr>notifications := notifications d
          @ [\<lparr>n_id = next_id d, n_title = t, n_message = m, n_type = s, fade_out = False\<rparr>],
       timers := timers d @ [(clock d + 5000, Add_fade_out (next_id d))],
       next_id := Suc (next_id d)\<rparr>"

text \<open>
  The two callbacks. The first adds the class \<^verbatim>\<open>fade-out\<close> and sets a timer of
  500 ms for the second, which removes the element.
\<close>

fun fire :: "timer_action \<Rightarrow> document \<Rightarrow> document" where
  "fire (Add_fade_out i) d =
     d\<lparr>notifications := map (\<lambda>n. if n_id n = i then n\<lparr>fade_out := True\<rparr> else n) (notifications d),
       timers := timers d @ [(clock d + 500, Remove_notification i)]\<rparr>"
| "fire (Remove_notification i) d =
     d\<lparr>notifications := filter (\<lambda>n. n_id n \<noteq> i) (notifications d)\<rparr>"

text \<open>
  The browser's timer queue: the timer that is due first fires first, the older one
  among timers due at the same time.
\<close>

fun earliest :: "timer list \<Rightarrow> timer option" where
  "earliest [] = None"
| "earliest (t # ts) =
     (case earliest ts of
        None \<Rightarrow> Some t
      | Some u \<Rightarrow> if fst t \<le> fst u then Some t else Some u)"

fun weight :: "timer \<Rightarrow> nat" where
  "weight (due, Add_fade_out i) = 2"
| "weight (due, Remove_notification i) = 1"

lemma earliest_in_set: "earliest ts = Some u \<Longrightarrow> u \<in> set ts"
  by (induction ts arbitrary: u) (auto split: option.splits if_splits)

lemma weight_remove1:
  "u \<in> set ts \<Longrightarrow> sum_list (map weight (remove1 u ts)) + weight u = sum_list (map weight ts)"
  by (induction ts) auto

text \<open>One timer fires: it leaves the queue, the clock reaches its due time, its callback runs.\<close>

definition fire_next :: "timer \<Rightarrow> document \<Rightarrow> document" where
  "fire_next x d =
     fire (snd x) (d\<lparr>timers := remove1 x (timers d), clock := max (clock d) (fst x)\<rparr>)"

lemma weight_fire_next:
  assumes "x \<in> set (timers d)"
  shows "sum_list (map weight (timers (fire_next x d))) < sum_list (map weight (timers d))"
proof -
  obtain due a where x: "x = (due, a)" by (cases x)
  from weight_remove1 [OF assms] show ?thesis
    unfolding x fire_next_def by (cases a) simp_all
qed

text \<open>
  Time passes until \<open>T\<close>: every timer due by then fires at its due time, the timers
  set on the way included.
\<close>

function advance_to :: "nat \<Rightarrow> document \<Rightarrow> document" where
  "advance_to T d =
     (case earliest (timers d) of
        None \<Rightarrow> d\<lparr>clock := max (clock d) T\<rparr>
      | Some x \<Rightarrow>
          if fst x \<le> T then advance_to T (fire_next x d)
          else d\<lparr>clock := max (clock d) T\<rparr>)"
  by pat_completeness auto
termination
proof (relation "measure (\<lambda>(T, d). sum_list (map weight (timers d)))")
  show "wf (measure (\<lambda>(T, d). sum_list (map weight (timers d))))"
    by simp
next
  fix T :: nat and d :: document and x :: timer
  assume "earliest (timers d) = Some x"
  then have "x \<in> set (timers d)" by (rule earliest_in_set)
  then show "((T, fire_next x d), (T, d)) \<in> measure (\<lambda>(T, d). sum_list (map weight (timers d)))"
    by (simp add: weight_fire_next)
qed

declare advance_to.simps [simp del]

text \<open>
  What the list of notifications shows of the element \<open>i\<close>: \<open>[False]\<close> when it is
  there without the class \<^verbatim>\<open>fade-out\<close>, \<open>[True]\<close> when it is there with it, \<open>[]\<close> when
  it is gone.
\<close>

definition notification_state :: "nat \<Rightarrow> document \<Rightarrow> bool list" where
  "notification_state i d = map fade_out (filter (\<lambda>n. n_id n = i) (notifications d))"

fun target :: "timer \<Rightarrow> nat" where
  "target (due, Add_fade_out i) = i"
| "target (due, Remove_notification i) = i"

text \<open>
  Element identities are handed out in increasing order, so no element and no timer of
  the document carries an identity that is still to come.
\<close>

definition well_formed :: "document \<Rightarrow> bool" where
  "well_formed d =
     (list_all (\<lambda>n. n_id n < next_id d) (notifications d)
      \<and> list_all (\<lambda>t. target t < next_id d) (timers d))"

text \<open>The pending timers whose callbacks close over the element \<open>i\<close>.\<close>

definition timers_of :: "nat \<Rightarrow> document \<Rightarrow> timer list" where
  "timers_of i d = filter (\<lambda>t. target t = i) (timers d)"

text \<open>
  The three stretches in the life of the notification \<open>i\<close> shown at time \<open>t\<close>: on
  show with the first timer pending, leaving with the second timer pending, and gone.
\<close>

definition showing :: "nat \<Rightarrow> nat \<Rightarrow> document \<Rightarrow> bool" where
  "showing i t d =
     (timers_of i d = [(t + 5000, Add_fade_out i)] \<and> notification_state i d = [False]
      \<and> clock d \<le> t + 5000)"

definition leaving :: "nat \<Rightarrow> nat \<Rightarrow> document \<Rightarrow> bool" where
  "leaving i t d =
     (timers_of i d = [(t + 5500, Remove_notification i)] \<and> notification_state i d = [True]
      \<and> t + 5000 \<le> clock d \<and> clock d \<le> t + 5500)"

definition gone :: "nat \<Rightarrow> nat \<Rightarrow> document \<Rightarrow> bool" where
  "gone i t d =
     (timers_of i d = [] \<and> notification_state i d = [] \<and> t + 5500 \<le> clock d)"

definition lifecycle :: "nat \<Rightarrow> nat \<Rightarrow> document \<Rightarrow> bool" where
  "lifecycle i t d = (showing i t d \<or> leaving i t d \<or> gone i t d)"

section \<open>Routing and the content pages\<close>

text \<open>\<^verbatim>\<open>s.split(sep)\<close> for a separator of one character.\<close>

fun split_on :: "char \<Rightarrow> string \<Rightarrow> string list" where
  "split_on sep [] = [[]]"
| "split_on sep (c # cs) =
     (if c = sep then [] # split_on sep cs
      else case split_on sep cs of
             [] \<Rightarrow> [[c]]
           | w # ws \<Rightarrow> (c # w) # ws)"

text \<open>\<^verbatim>\<open>xs.pop()\<close>: the last element, \<^verbatim>\<open>undefined\<close> for an empty array.\<close>

definition pop :: "string list \<Rightarrow> js_string" where
  "pop xs = (if xs = [] then Undefined else Str (last xs))"

datatype view = BrowseAll | NetworkDetail string | StudioDetail string | Unrecognized

text \<open>
  The branches of \<^verbatim>\<open>renderCustomView\<close> (lines 259 to 267), in their order: which view
  a path selects, and with which id.
\<close>

definition resolve :: "string \<Rightarrow> view" where
  "resolve path =
     (if path = ''/jellyseerr/browse'' then BrowseAll
      else if prefix ''/jellyseerr/network/'' path
        then NetworkDetail (to_string (pop (split_on CHR ''/'' path)))
      else if prefix ''/jellyseerr/studio/'' path
        then StudioDetail (to_string (pop (split_on CHR ''/'' path)))
      else Unrecognized)"

text \<open>
  A content page under construction while its content request is awaited: the element
  is not in the document yet.
\<close>

record pending_page =
  pending_catalog :: catalog
  pending_id :: string
  pending_header :: lookup

datatype render = Rendered document | Loading pending_page document

text \<open>\<^verbatim>\<open>container.innerHTML = ...\<close> and \<^verbatim>\<open>container.appendChild(...)\<close>\<close>

definition set_children :: "page list \<Rightarrow> document \<Rightarrow> document" where
  "set_children ps d = d\<lparr>container := map_option (\<lambda>_. ps) (container d)\<rparr>"

definition append_child :: "page \<Rightarrow> document \<Rightarrow> document" where
  "append_child pg d = d\<lparr>container := map_option (\<lambda>ps. ps @ [pg]) (container d)\<rparr>"

definition renderBrowsePage :: "plugin \<Rightarrow> document \<Rightarrow> document" where
  "renderBrowsePage p d = append_child (Browse_page (networkCache p) (studioCache p)) d"

text \<open>
  \<^verbatim>\<open>renderNetworkContentPage\<close> up to its \<^verbatim>\<open>await\<close>: the cache is read; a falsy
  result ends the function with the not-found heading, anything else builds the header
  and sends the content request.
\<close>

definition renderNetworkContentPage_start :: "plugin \<Rightarrow> string \<Rightarrow> document \<Rightarrow> render" where
  "renderNetworkContentPage_start p networkId d =
     (case js_get (networkCache p) networkId of
        Missing \<Rightarrow> Rendered (set_children [Not_found Network] d)
      | network \<Rightarrow>
          Loading \<lparr>pending_catalog = Network, pending_id = networkId, pending_header = network\<rparr>
            (doc_emit (Fetch (getNetworkContent (serverConnector p) networkId)) d))"

definition renderStudioContentPage_start :: "plugin \<Rightarrow> string \<Rightarrow> document \<Rightarrow> render" where
  "renderStudioContentPage_start p studioId d =
     (case js_get (studioCache p) studioId of
        Missing \<Rightarrow> Rendered (set_children [Not_found Studio] d)
      | studio \<Rightarrow>
          Loading \<lparr>pending_catalog = Studio, pending_id = studioId, pending_header = studio\<rparr>
            (doc_emit (Fetch (getStudioContent (serverConnector p) studioId)) d))"

text \<open>
  Both content pages after the \<^verbatim>\<open>await\<close>: the sections of the answer, or the console
  line and the error message when the request failed; then the page is appended.
\<close>

definition renderContentPage_finish :: "pending_page \<Rightarrow> content fetch_outcome \<Rightarrow> document \<Rightarrow> document" where
  "renderContentPage_finish pg answer d =
     (case makeRequest answer of
        Inr c \<Rightarrow>
          append_child (Content_page (pending_catalog pg) (pending_header pg) (content_sections c) False) d
      | Inl err \<Rightarrow>
          append_child (Content_page (pending_catalog pg) (pending_header pg) [] True)
            (doc_emit (ErrorFetching (pending_id pg) err) d))"

text \<open>
  \<^verbatim>\<open>renderCustomView(path)\<close> up to the first \<^verbatim>\<open>await\<close>: nothing without the
  container; otherwise the container is emptied and the branch for the path runs.
\<close>

definition renderCustomView_start :: "plugin \<Rightarrow> string \<Rightarrow> document \<Rightarrow> render" where
  "renderCustomView_start p path d =
     (case container d of
        None \<Rightarrow> Rendered d
      | Some _ \<Rightarrow>
          (let d' = set_children [] d in
           case resolve path of
             BrowseAll \<Rightarrow> Rendered (renderBrowsePage p d')
           | NetworkDetail networkId \<Rightarrow> renderNetworkContentPage_start p networkId d'
           | StudioDetail studioId \<Rightarrow> renderStudioContentPage_start p studioId d'
           | Unrecognized \<Rightarrow> Rendered d'))"

text \<open>One whole navigation, nothing else running in between.\<close>

definition renderCustomView :: "plugin \<Rightarrow> string \<Rightarrow> content fetch_outcome \<Rightarrow> document \<Rightarrow> document" where
  "renderCustomView p path answer d =
     (case renderCustomView_start p path d of
        Rendered d' \<Rightarrow> d'
      | Loading pg d' \<Rightarrow> renderContentPage_finish pg answer d')"

text \<open>\<^verbatim>\<open>handleViewChange\<close>: only paths under \<^verbatim>\<open>/jellyseerr/\<close> reach the router.\<close>

definition handleViewChange :: "plugin \<Rightarrow> string \<Rightarrow> document \<Rightarrow> render" where
  "handleViewChange p v d =
     (if prefix ''/jellyseerr/'' v then renderCustomView_start p v d else Rendered d)"

section \<open>Requesting an item\<close>

text \<open>
  The selector \<^verbatim>\<open>.content-card[data-id="..."][data-media-type="..."]\<close>: both
  attributes equal the item's.
\<close>

definition matches :: "item \<Rightarrow> card \<Rightarrow> bool" where
  "matches it c = (data_id c = item_id it \<and> data_media_type c = item_mediaType it)"

text \<open>
  The body of the \<^verbatim>\<open>forEach\<close> over the cards found. (The details modal is no
  content card and is left out.)
\<close>

definition mark_requested :: "card \<Rightarrow> card" where
  "mark_requested c =
     c\<lparr>badge := (case badge c of None \<Rightarrow> None | Some _ \<Rightarrow> Some Badge_requested),
       request_button := False\<rparr>"

text \<open>
  \<^verbatim>\<open>requestContent(item)\<close> up to its \<^verbatim>\<open>await\<close>: the request is sent, and nothing
  else happens.
\<close>

definition requestContent_start :: "plugin \<Rightarrow> item \<Rightarrow> document \<Rightarrow> document" where
  "requestContent_start p it d =
     doc_emit (Fetch (requestContent_call (serverConnector p) (item_id it) (item_mediaType it))) d"

text \<open>
  After the \<^verbatim>\<open>await\<close>: on success the notification, then the cards the selector finds
  in the document as it is now; on failure the console line and the notification.
\<close>

definition requestContent_finish :: "item \<Rightarrow> 'a fetch_outcome \<Rightarrow> document \<Rightarrow> document" where
  "requestContent_finish it answer d =
     (case makeRequest answer of
        Inr result \<Rightarrow>
          map_cards (\<lambda>c. if matches it c then mark_requested c else c)
            (showNotification ''Success'' (display_name it @ '' has been requested.'') Success d)
      | Inl err \<Rightarrow>
          showNotification ''Error'' (''Failed to request '' @ display_name it @ ''.'') Error
            (doc_emit (ErrorRequesting (item_id it) err) d))"

text \<open>One whole request, nothing else running in between.\<close>

definition requestContent :: "plugin \<Rightarrow> item \<Rightarrow> 'a fetch_outcome \<Rightarrow> document \<Rightarrow> document" where
  "requestContent p it answer d = requestContent_finish it answer (requestContent_start p it d)"

text \<open>
  Every card that \<^verbatim>\<open>createContentCard\<close> makes holds a badge; a document whose cards
  all do is what the plugin draws.
\<close>

definition has_badge :: "card \<Rightarrow> bool" where
  "has_badge c = (badge c \<noteq> None)"

definition cards_badged :: "document \<Rightarrow> bool" where
  "cards_badged d = list_all has_badge (document_cards d)"

section \<open>The specification's wording\<close>

text \<open>The part of a string after its last separator; the whole string when it has none.\<close>

definition after_last :: "char \<Rightarrow> string \<Rightarrow> string" where
  "after_last sep s = rev (takeWhile (\<lambda>c. c \<noteq> sep) (rev s))"

text \<open>
  The router as the specification words it: the id of a detail view is what remains of
  the path after the prefix.
\<close>

definition resolve_spec :: "string \<Rightarrow> view" where
  "resolve_spec path =
     (if path = ''/jellyseerr/browse'' then BrowseAll
      else if prefix ''/jellyseerr/network/'' path
        then NetworkDetail (drop (length ''/jellyseerr/network/'') path)
      else if prefix ''/jellyseerr/studio/'' path
        then StudioDetail (drop (length ''/jellyseerr/studio/'') path)
      else Unrecognized)"

text \<open>
  The result of a content fetch as the specification words it: both groups are there,
  and each holds items of its media type only.
\<close>

definition both_groups_by_media_type :: "content \<Rightarrow> bool" where
  "both_groups_by_media_type c =
     (case (movies c, tvShows c) of
        (Some ms, Some ts) \<Rightarrow>
          list_all (\<lambda>i. item_mediaType i = Movie) ms \<and> list_all (\<lambda>i. item_mediaType i = Tv) ts
      | _ \<Rightarrow> False)"

text \<open>A group that makes no section: missing or empty.\<close>

definition empty_group :: "item list option \<Rightarrow> bool" where
  "empty_group g = (g = None \<or> g = Some [])"

section \<open>Example values\<close>

definition example_connector :: connector where
  "example_connector = \<lparr>baseUrl = ''http://localhost:5055'', apiKey = ''secret''\<rparr>"

definition hbo :: entity where
  "hbo = \<lparr>entity_id = 1, entity_name = ''HBO'', logoPath = None\<rparr>"

definition netflix :: entity where
  "netflix = \<lparr>entity_id = 2, entity_name = ''Netflix'', logoPath = Some ''/n.png''\<rparr>"

definition warner :: entity where
  "warner = \<lparr>entity_id = 9, entity_name = ''Warner Bros.'', logoPath = None\<rparr>"

text \<open>A plugin that has refreshed once: one network and one studio are cached.\<close>

definition warm_plugin :: plugin where
  "warm_plugin =
     \<lparr>serverConnector = example_connector,
      networkCache = [(''1'', hbo)],
      studioCache = [(''9'', warner)],
      lastRefresh = Some 1000,
      trace = []\<rparr>"

definition some_movie :: item where
  "some_movie = \<lparr>item_id = 42, item_mediaType = Movie, item_title = Str ''Some Movie'',
                 item_name = Undefined, available = False\<rparr>"

definition some_show :: item where
  "some_show = \<lparr>item_id = 1399, item_mediaType = Tv, item_title = Undefined,
                 item_name = Str ''Some Show'', available = False\<rparr>"

text \<open>
  A document showing one content page: the same movie on two cards, and a show on a
  third.
\<close>

definition two_cards_document :: document where
  "two_cards_document =
     new_document\<lparr>container :=
       Some [Content_page Network (Own hbo)
               [createContentSection ''Movies'' [some_movie, some_movie],
                createContentSection ''TV Shows'' [some_show]] False]\<rparr>"

section \<open>Refresh: what a failed fetch leaves behind\<close>

lemma fetches_append: "fetches (xs @ ys) = fetches xs @ fetches ys"
  by (induction xs rule: fetches.induct) simp_all

lemma makeRequest_Rejected: "makeRequest Rejected = Inl TransportError"
  by simp

lemma makeRequest_ok: "makeRequest (Responded 200 ''OK'' (Some v)) = Inr v"
  by (simp add: response_ok_def)

lemma makeRequest_500: "makeRequest (Responded 500 ''Internal Server Error'' b) = Inl (ApiError 500 ''Internal Server Error'')"
  by (simp add: response_ok_def)

text \<open>
  C9. Every invocation of \<^verbatim>\<open>refreshData\<close> stores the current time in
  \<open>lastRefresh\<close> in its first stretch: when the networks request, the first one of the
  invocation, is sent, the time stamp is already written. It is still the current time
  when the invocation ends, whatever the two fetches answer, so also when one of them
  fails and a cache keeps its old content.
\<close>

theorem refreshData_stamps_first:
  "lastRefresh (refreshData_start now p) = Some now
   \<and> trace (refreshData_start now p)
       = trace p @ [LogRefreshing, Fetch (getNetworks (serverConnector p))]
   \<and> lastRefresh (refreshData now networksAnswer studiosAnswer p) = Some now"
proof -
  have start: "lastRefresh (refreshData_start now p) = Some now"
    by (simp add: refreshData_start_def emit_def)
  have tr: "trace (refreshData_start now p)
      = trace p @ [LogRefreshing, Fetch (getNetworks (serverConnector p))]"
    by (simp add: refreshData_start_def emit_def)
  have "lastRefresh (refreshData now networksAnswer studiosAnswer p)
      = lastRefresh (refreshData_start now p)"
    by (simp add: refreshData_def refreshData_networks_def refreshData_studios_def emit_def
        Let_def split: sum.splits)
  with start tr show ?thesis by simp
qed

theorem refreshData_stamps_first_witness:
  "lastRefresh (refreshData 5000 Rejected Rejected warm_plugin) = Some 5000
   \<and> networkCache (refreshData 5000 Rejected Rejected warm_plugin) = [(''1'', hbo)]"
proof -
  have "lastRefresh (refreshData 5000 Rejected Rejected warm_plugin) = Some 5000"
    using refreshData_stamps_first [of 5000 warm_plugin Rejected Rejected] by simp
  moreover have "networkCache (refreshData 5000 Rejected Rejected warm_plugin) = [(''1'', hbo)]"
    by (simp add: refreshData_def refreshData_networks_def refreshData_start_def emit_def
        warm_plugin_def)
  ultimately show ?thesis by simp
qed

text \<open>
  C1, as the specification states it, fails: the two fetches are not independent. With
  the networks fetch failing and a studios answer that would succeed, the studios
  request is never sent and the studios cache is not replaced.
\<close>

theorem refresh_independent_counterexample:
  "makeRequest (Responded 200 ''OK'' (Some [warner])) = Inr [warner]
   \<and> studioCache (refreshData 5000 Rejected (Responded 200 ''OK'' (Some [warner]))
        (new_plugin example_connector)) \<noteq> build_cache [warner]
   \<and> fetches (trace (refreshData 5000 Rejected (Responded 200 ''OK'' (Some [warner]))
        (new_plugin example_connector))) = [getNetworks example_connector]"
  by (simp add: refreshData_def refreshData_networks_def refreshData_start_def emit_def
      new_plugin_def build_cache_def response_ok_def)

text \<open>
  C1, amended. \<^verbatim>\<open>refreshData\<close> fetches the networks first and the studios only
  after the networks fetch has succeeded.
  \<^item> When the networks fetch fails, both caches are what they were before, the studios
    request is not sent, and the failure is only logged.
  \<^item> When the networks fetch succeeds, the networks cache is replaced as a whole by the
    cache built from the answer. Then, when the studios fetch fails, the studios cache
    is what it was before and the failure is only logged; when it succeeds, the studios
    cache is replaced as a whole.
  In no case is a cache emptied by a failure, and a failure adds nothing but a console
  line to the trace.
\<close>

theorem refreshData_sequential:
  fixes p :: plugin
  defines "c \<equiv> serverConnector p"
  shows "(makeRequest networksAnswer = Inl err \<longrightarrow>
            networkCache (refreshData now networksAnswer studiosAnswer p) = networkCache p
          \<and> studioCache (refreshData now networksAnswer studiosAnswer p) = studioCache p
          \<and> trace (refreshData now networksAnswer studiosAnswer p)
              = trace p @ [LogRefreshing, Fetch (getNetworks c), ErrorRefreshing err])
       \<and> (makeRequest networksAnswer = Inr networksData \<and> makeRequest studiosAnswer = Inl err \<longrightarrow>
            networkCache (refreshData now networksAnswer studiosAnswer p) = build_cache networksData
          \<and> studioCache (refreshData now networksAnswer studiosAnswer p) = studioCache p
          \<and> trace (refreshData now networksAnswer studiosAnswer p)
              = trace p @ [LogRefreshing, Fetch (getNetworks c), Fetch (getStudios c),
                           ErrorRefreshing err])
       \<and> (makeRequest networksAnswer = Inr networksData \<and> makeRequest studiosAnswer = Inr studiosData \<longrightarrow>
            networkCache (refreshData now networksAnswer studiosAnswer p) = build_cache networksData
          \<and> studioCache (refreshData now networksAnswer studiosAnswer p) = build_cache studiosData
          \<and> fetches (trace (refreshData now networksAnswer studiosAnswer p))
              = fetches (trace p) @ [getNetworks c, getStudios c])"
proof (intro conjI impI)
  assume "makeRequest networksAnswer = Inl err"
  then show "networkCache (refreshData now networksAnswer studiosAnswer p) = networkCache p"
    and "studioCache (refreshData now networksAnswer studiosAnswer p) = studioCache p"
    and "trace (refreshData now networksAnswer studiosAnswer p)
          = trace p @ [LogRefreshing, Fetch (getNetworks c), ErrorRefreshing err]"
    by (simp_all add: refreshData_def refreshData_networks_def refreshData_start_def emit_def c_def)
next
  assume a: "makeRequest networksAnswer = Inr networksData \<and> makeRequest studiosAnswer = Inl err"
  then show "networkCache (refreshData now networksAnswer studiosAnswer p) = build_cache networksData"
    and "studioCache (refreshData now networksAnswer studiosAnswer p) = studioCache p"
    and "trace (refreshData now networksAnswer studiosAnswer p)
          = trace p @ [LogRefreshing, Fetch (getNetworks c), Fetch (getStudios c),
                       ErrorRefreshing err]"
    by (simp_all add: refreshData_def refreshData_networks_def refreshData_studios_def
        refreshData_start_def emit_def c_def)
next
  assume a: "makeRequest networksAnswer = Inr networksData \<and> makeRequest studiosAnswer = Inr studiosData"
  then show "networkCache (refreshData now networksAnswer studiosAnswer p) = build_cache networksData"
    and "studioCache (refreshData now networksAnswer studiosAnswer p) = build_cache studiosData"
    and "fetches (trace (refreshData now networksAnswer studiosAnswer p))
          = fetches (trace p) @ [getNetworks c, getStudios c]"
    by (simp_all add: refreshData_def refreshData_networks_def refreshData_studios_def
        refreshData_start_def emit_def c_def Let_def fetches_append)
qed

theorem refreshData_sequential_witness:
  "makeRequest (Rejected :: entity list fetch_outcome) = Inl TransportError
   \<and> studioCache (refreshData 5000 Rejected (Responded 200 ''OK'' (Some [netflix])) warm_plugin)
       = studioCache warm_plugin
   \<and> makeRequest (Responded 200 ''OK'' (Some [netflix])) = Inr [netflix]
   \<and> networkCache (refreshData 5000 (Responded 200 ''OK'' (Some [netflix])) Rejected warm_plugin)
       = build_cache [netflix]
   \<and> studioCache (refreshData 5000 (Responded 200 ''OK'' (Some [netflix])) Rejected warm_plugin)
       = studioCache warm_plugin
   \<and> studioCache (refreshData 5000 (Responded 200 ''OK'' (Some [netflix]))
        (Responded 200 ''OK'' (Some [warner])) warm_plugin) = build_cache [warner]"
proof -
  have rej: "makeRequest (Rejected :: entity list fetch_outcome) = Inl TransportError"
    by simp
  have okn: "makeRequest (Responded 200 ''OK'' (Some [netflix])) = Inr [netflix]"
    by (rule makeRequest_ok)
  have okw: "makeRequest (Responded 200 ''OK'' (Some [warner])) = Inr [warner]"
    by (rule makeRequest_ok)
  note A = refreshData_sequential [of Rejected TransportError 5000
      "Responded 200 ''OK'' (Some [netflix])" warm_plugin "[]" "[]"]
  note B = refreshData_sequential [of "Responded 200 ''OK'' (Some [netflix])" TransportError 5000
      Rejected warm_plugin "[netflix]" "[]"]
  note C = refreshData_sequential [of "Responded 200 ''OK'' (Some [netflix])" TransportError 5000
      "Responded 200 ''OK'' (Some [warner])" warm_plugin "[netflix]" "[warner]"]
  from A rej have 1: "studioCache (refreshData 5000 Rejected (Responded 200 ''OK'' (Some [netflix])) warm_plugin)
       = studioCache warm_plugin"
    by simp
  from B okn rej have 2: "networkCache (refreshData 5000 (Responded 200 ''OK'' (Some [netflix])) Rejected warm_plugin)
       = build_cache [netflix]
     \<and> studioCache (refreshData 5000 (Responded 200 ''OK'' (Some [netflix])) Rejected warm_plugin)
       = studioCache warm_plugin"
    by simp
  from C okn okw have 3: "studioCache (refreshData 5000 (Responded 200 ''OK'' (Some [netflix]))
        (Responded 200 ''OK'' (Some [warner])) warm_plugin) = build_cache [warner]"
    by simp
  from rej okn 1 2 3 show ?thesis by simp
qed

section \<open>Routing\<close>

lemma split_on_nonempty: "split_on sep s \<noteq> []"
  by (induction s) (auto split: list.splits)

lemma after_last_Cons:
  "after_last sep (c # s) = (if sep \<in> set s then after_last sep s else if c = sep then s else c # s)"
proof (cases "sep \<in> set s")
  case True
  then have "sep \<in> set (rev s)" by simp
  then have "takeWhile (\<lambda>c. c \<noteq> sep) (rev s @ [c]) = takeWhile (\<lambda>c. c \<noteq> sep) (rev s)"
    by (rule takeWhile_append1) simp
  with True show ?thesis by (simp add: after_last_def)
next
  case False
  then have "\<And>x. x \<in> set (rev s) \<Longrightarrow> x \<noteq> sep" by auto
  then have "takeWhile (\<lambda>c. c \<noteq> sep) (rev s @ [c]) = rev s @ takeWhile (\<lambda>c. c \<noteq> sep) [c]"
    by (rule takeWhile_append2)
  with False show ?thesis by (simp add: after_last_def)
qed

lemma split_on_no_sep: "sep \<notin> set s \<Longrightarrow> split_on sep s = [s]"
  by (induction s) auto

lemma length_split_on: "sep \<in> set s \<Longrightarrow> length (split_on sep s) \<ge> 2"
  by (induction s) (auto split: list.splits simp: split_on_nonempty)

lemma last_split_on: "last (split_on sep s) = after_last sep s"
proof (induction s)
  case Nil
  show ?case by (simp add: after_last_def)
next
  case (Cons c s)
  show ?case
  proof (cases "sep \<in> set s")
    case True
    then have "length (split_on sep s) \<ge> 2" by (rule length_split_on)
    then obtain w v ws where "split_on sep s = w # v # ws"
      by (cases "split_on sep s"; cases "tl (split_on sep s)") auto
    with Cons True show ?thesis
      by (simp add: after_last_Cons)
  next
    case False
    then show ?thesis by (simp add: after_last_Cons split_on_no_sep)
  qed
qed

lemma pop_split_on: "to_string (pop (split_on sep s)) = after_last sep s"
  by (simp add: pop_def split_on_nonempty last_split_on)

lemma after_last_append:
  "sep \<notin> set t \<Longrightarrow> after_last sep (s @ sep # t) = t"
proof -
  assume "sep \<notin> set t"
  then have "\<And>x. x \<in> set (rev t) \<Longrightarrow> x \<noteq> sep" by auto
  then have "takeWhile (\<lambda>c. c \<noteq> sep) (rev t @ sep # rev s) = rev t @ takeWhile (\<lambda>c. c \<noteq> sep) (sep # rev s)"
    by (rule takeWhile_append2)
  then show ?thesis by (simp add: after_last_def)
qed

text \<open>
  C5, as the specification states it, fails. The id of a detail view is not what remains
  of the path after the prefix but the path's last segment (\<^verbatim>\<open>path.split('/').pop()\<close>):
  the two differ as soon as the remainder holds a slash. And a path that no rule
  recognises still changes the view: \<^verbatim>\<open>renderCustomView\<close> empties the container before
  it looks at the path.
\<close>

theorem resolve_remaining_segment_counterexample:
  "resolve ''/jellyseerr/network/7/extra'' = NetworkDetail ''extra''
   \<and> resolve_spec ''/jellyseerr/network/7/extra'' = NetworkDetail ''7/extra''
   \<and> container (renderCustomView (new_plugin example_connector) ''/jellyseerr/nonsense'' Rejected
        (new_document\<lparr>container := Some [Not_found Network]\<rparr>)) = Some []"
  by (simp add: resolve_def resolve_spec_def pop_def renderCustomView_def renderCustomView_start_def
      set_children_def new_document_def)

text \<open>
  C5, amended. \<open>resolve\<close> yields \<open>BrowseAll\<close> for the browse path exactly;
  \<open>NetworkDetail s\<close> for a path that starts with the network prefix and \<open>StudioDetail s\<close>
  for one that starts with the studio prefix, where \<open>s\<close> is the part of the path after
  its last slash, which is the remainder after the prefix whenever that remainder holds
  no slash; and \<open>Unrecognized\<close> otherwise, the rules taken in this order. It is a function
  of the path alone. For an unrecognised path \<^verbatim>\<open>renderCustomView\<close> draws no page,
  sends no request and raises no error; it leaves the container empty. A path that does
  not start with \<^verbatim>\<open>/jellyseerr/\<close> does not reach \<^verbatim>\<open>renderCustomView\<close>: the view
  change leaves the document as it is.
\<close>

theorem resolve_last_segment:
  "resolve path =
     (if path = ''/jellyseerr/browse'' then BrowseAll
      else if prefix ''/jellyseerr/network/'' path then NetworkDetail (after_last CHR ''/'' path)
      else if prefix ''/jellyseerr/studio/'' path then StudioDetail (after_last CHR ''/'' path)
      else Unrecognized)
   \<and> (CHR ''/'' \<notin> set rest \<longrightarrow>
        resolve (''/jellyseerr/network/'' @ rest) = NetworkDetail rest
        \<and> resolve (''/jellyseerr/studio/'' @ rest) = StudioDetail rest)
   \<and> (resolve path = Unrecognized \<and> container d \<noteq> None \<longrightarrow>
        renderCustomView_start p path d = Rendered (d\<lparr>container := Some []\<rparr>))
   \<and> (\<not> prefix ''/jellyseerr/'' path \<longrightarrow>
        resolve path = Unrecognized \<and> handleViewChange p path d = Rendered d)"
proof -
  have gen: "resolve q =
     (if q = ''/jellyseerr/browse'' then BrowseAll
      else if prefix ''/jellyseerr/network/'' q then NetworkDetail (after_last CHR ''/'' q)
      else if prefix ''/jellyseerr/studio/'' q then StudioDetail (after_last CHR ''/'' q)
      else Unrecognized)" for q
    by (simp add: resolve_def pop_split_on)
  have seg: "resolve (''/jellyseerr/network/'' @ rest) = NetworkDetail rest
        \<and> resolve (''/jellyseerr/studio/'' @ rest) = StudioDetail rest"
    if r: "CHR ''/'' \<notin> set rest"
  proof -
    have n: "after_last CHR ''/'' (''/jellyseerr/network'' @ CHR ''/'' # rest) = rest"
      using r by (rule after_last_append)
    have s: "after_last CHR ''/'' (''/jellyseerr/studio'' @ CHR ''/'' # rest) = rest"
      using r by (rule after_last_append)
    from n s show ?thesis by (simp add: gen)
  qed
  have unrec: "renderCustomView_start p path d = Rendered (d\<lparr>container := Some []\<rparr>)"
    if "resolve path = Unrecognized \<and> container d \<noteq> None"
    using that by (auto simp: renderCustomView_start_def set_children_def)
  have outside: "resolve path = Unrecognized \<and> handleViewChange p path d = Rendered d"
    if "\<not> prefix ''/jellyseerr/'' path"
  proof -
    have "prefix ''/jellyseerr/'' path" if "prefix (''/jellyseerr/'' @ r) path" for r
      using that by (rule append_prefixD)
    from this [of "''network/''"] this [of "''studio/''"] this [of "''browse''"]
      \<open>\<not> prefix ''/jellyseerr/'' path\<close>
    have "\<not> prefix ''/jellyseerr/network/'' path" "\<not> prefix ''/jellyseerr/studio/'' path"
      "path \<noteq> ''/jellyseerr/browse''"
      by auto
    then have "resolve path = Unrecognized" by (simp add: gen)
    with that show ?thesis by (simp add: handleViewChange_def)
  qed
  from gen [of path] seg unrec outside show ?thesis by blast
qed

theorem resolve_last_segment_witness:
  "resolve ''/jellyseerr/browse'' = BrowseAll
   \<and> CHR ''/'' \<notin> set ''7''
   \<and> resolve ''/jellyseerr/network/7'' = NetworkDetail ''7''
   \<and> resolve ''/jellyseerr/studio/7'' = StudioDetail ''7''
   \<and> resolve ''/nonsense'' = Unrecognized
   \<and> container new_document \<noteq> None
   \<and> renderCustomView_start (new_plugin example_connector) ''/nonsense'' new_document
       = Rendered (new_document\<lparr>container := Some []\<rparr>)
   \<and> \<not> prefix ''/jellyseerr/'' ''/nonsense''
   \<and> handleViewChange (new_plugin example_connector) ''/nonsense'' new_document
       = Rendered new_document"
proof -
  have a: "CHR ''/'' \<notin> set ''7''" by simp
  have b: "container new_document \<noteq> None" by (simp add: new_document_def)
  note T = resolve_last_segment [of _ "''7''" new_document "new_plugin example_connector"]
  have c: "resolve ''/nonsense'' = Unrecognized"
    using T [of "''/nonsense''"] by simp
  have d: "resolve ''/jellyseerr/browse'' = BrowseAll"
    using T [of "''/jellyseerr/browse''"] by simp
  from T [of "''/nonsense''"] a b c d show ?thesis by simp
qed

section \<open>Content pages\<close>

text \<open>
  An id that is neither a key of the cache nor a property name of \<^verbatim>\<open>Object.prototype\<close>
  ends in the not-found heading, and no request is sent.
\<close>

lemma not_found_without_fetch:
  "map_of (networkCache p) k = None \<Longrightarrow> k \<notin> set object_prototype \<Longrightarrow>
     renderNetworkContentPage_start p k d = Rendered (set_children [Not_found Network] d)"
  by (simp add: renderNetworkContentPage_start_def js_get_def)

text \<open>
  C6 holds for such ids only. For the path \<^verbatim>\<open>/jellyseerr/network/constructor\<close> and
  an empty networks cache, the read \<^verbatim>\<open>this.networkCache["constructor"]\<close> finds the
  inherited property, the guard \<^verbatim>\<open>if (!network)\<close> does not fire, and the content
  request is sent for an id that is not in the cache: with the request failing, the
  navigation ends in a content page with the error message, not in the not-found
  heading. The studio page does the same.
\<close>

theorem inherited_key_is_fetched:
  "map_of (networkCache (new_plugin example_connector)) ''constructor'' = None
   \<and> renderCustomView_start (new_plugin example_connector) ''/jellyseerr/network/constructor''
        new_document
      = Loading \<lparr>pending_catalog = Network, pending_id = ''constructor'',
                  pending_header = Inherited ''constructor''\<rparr>
          (doc_emit (Fetch (getNetworkContent example_connector ''constructor'')) new_document)
   \<and> renderCustomView (new_plugin example_connector) ''/jellyseerr/network/constructor''
        Rejected new_document
      = new_document
          \<lparr>container := Some [Content_page Network (Inherited ''constructor'') [] True],
           doc_trace := [Fetch (getNetworkContent example_connector ''constructor''),
                         ErrorFetching ''constructor'' TransportError]\<rparr>
   \<and> map_of (studioCache warm_plugin) ''toString'' = None
   \<and> fetches (doc_trace (renderCustomView warm_plugin ''/jellyseerr/studio/toString''
        Rejected new_document))
      = [getStudioContent example_connector ''toString'']"
  by (simp add: renderCustomView_def renderCustomView_start_def renderNetworkContentPage_start_def
      renderStudioContentPage_start_def renderContentPage_finish_def resolve_def pop_def
      js_get_def object_prototype_def new_plugin_def warm_plugin_def new_document_def
      set_children_def append_child_def doc_emit_def)

text \<open>
  C7, as the specification states it, fails: the fetch hands on what the remote service
  answered. An answer without the \<^verbatim>\<open>tvShows\<close> field, whose \<^verbatim>\<open>movies\<close> hold a show,
  is returned as it is.
\<close>

theorem fetch_groups_counterexample:
  "makeRequest (Responded 200 ''OK'' (Some \<lparr>movies = Some [some_show], tvShows = None\<rparr>))
     = Inr \<lparr>movies = Some [some_show], tvShows = None\<rparr>
   \<and> \<not> both_groups_by_media_type \<lparr>movies = Some [some_show], tvShows = None\<rparr>"
  by (simp add: response_ok_def both_groups_by_media_type_def)

lemma group_section_titles:
  "map section_title (group_section t g) = (if empty_group g then [] else [t])"
  by (cases g) (auto simp: group_section_def empty_group_def createContentSection_def)

lemma group_section_cards:
  "list_all (\<lambda>s. section_cards s \<noteq> []) (group_section t g)"
  by (cases g) (auto simp: group_section_def createContentSection_def)

text \<open>
  C7, amended. The content fetch returns the body of a successful answer unchanged: the
  groups are the ones the remote service sent, either may be missing, and the fetch sorts
  nothing by media type. The consuming view draws a section for a group only when the
  group is there and not empty, movies before shows, and the page it appends holds
  exactly these sections.
\<close>

theorem content_passed_through:
  "(response_ok status \<longrightarrow> makeRequest (Responded status txt (Some c)) = Inr c)
   \<and> map section_title (content_sections c)
       = (if empty_group (movies c) then [] else [''Movies''])
         @ (if empty_group (tvShows c) then [] else [''TV Shows''])
   \<and> list_all (\<lambda>s. section_cards s \<noteq> []) (content_sections c)
   \<and> (response_ok status \<longrightarrow>
        renderContentPage_finish pg (Responded status txt (Some c)) d
          = append_child (Content_page (pending_catalog pg) (pending_header pg)
                            (content_sections c) False) d)"
proof -
  have 1: "map section_title (content_sections c)
       = (if empty_group (movies c) then [] else [''Movies''])
         @ (if empty_group (tvShows c) then [] else [''TV Shows''])"
    unfolding content_sections_def map_append group_section_titles by (rule refl)
  have 2: "list_all (\<lambda>s. section_cards s \<noteq> []) (content_sections c)"
    by (simp add: content_sections_def group_section_cards)
  have 3: "makeRequest (Responded status txt (Some c)) = Inr c" if "response_ok status"
    using that by simp
  have 4: "renderContentPage_finish pg (Responded status txt (Some c)) d
          = append_child (Content_page (pending_catalog pg) (pending_header pg)
                            (content_sections c) False) d" if "response_ok status"
    using that by (simp add: renderContentPage_finish_def)
  from 1 2 3 4 show ?thesis by blast
qed

theorem content_passed_through_witness:
  "response_ok 200
   \<and> makeRequest (Responded 200 ''OK'' (Some \<lparr>movies = Some [some_show], tvShows = None\<rparr>))
       = Inr \<lparr>movies = Some [some_show], tvShows = None\<rparr>
   \<and> map section_title (content_sections \<lparr>movies = Some [some_show], tvShows = None\<rparr>) = [''Movies'']"
proof -
  have ok: "response_ok 200" by (simp add: response_ok_def)
  have e: "\<not> empty_group (Some [some_show])" "empty_group None"
    by (simp_all add: empty_group_def)
  from content_passed_through [of 200 "''OK''" "\<lparr>movies = Some [some_show], tvShows = None\<rparr>"
      "\<lparr>pending_catalog = Network, pending_id = ''1'', pending_header = Own hbo\<rparr>" new_document] ok e
  show ?thesis by simp
qed

section \<open>Requests\<close>

lemma page_cards_map: "page_cards (map_page_cards f pg) = map f (page_cards pg)"
  by (cases pg) (simp_all add: map_concat comp_def)

lemma concat_map_page_cards:
  "concat (map (page_cards \<circ> map_page_cards f) ps) = map f (concat (map page_cards ps))"
  by (induction ps) (simp_all add: page_cards_map)

lemma document_cards_map_cards: "document_cards (map_cards f d) = map f (document_cards d)"
  by (cases "container d") (simp_all add: document_cards_def map_cards_def concat_map_page_cards)

lemma document_cards_showNotification [simp]:
  "document_cards (showNotification t m s d) = document_cards d"
  by (simp add: document_cards_def showNotification_def)

lemma document_cards_doc_emit [simp]: "document_cards (doc_emit e d) = document_cards d"
  by (simp add: document_cards_def doc_emit_def)

lemma requestContent_success_cards:
  "makeRequest answer = Inr result \<Longrightarrow>
     document_cards (requestContent p it answer d)
       = map (\<lambda>c. if matches it c then mark_requested c else c) (document_cards d)"
  by (simp add: requestContent_def requestContent_finish_def requestContent_start_def
      document_cards_map_cards)

lemma requestContent_failure_cards:
  "makeRequest answer = Inl err \<Longrightarrow>
     document_cards (requestContent p it answer d) = document_cards d"
  by (simp add: requestContent_def requestContent_finish_def requestContent_start_def)

lemma matches_mark_requested [simp]: "matches it (mark_requested c) = matches it c"
  by (simp add: matches_def mark_requested_def)

text \<open>
  C3. When the request succeeds, every card of the document keeps its identity key, so
  the item still has as many cards as before, and every card with the item's key shows
  the badge \<^verbatim>\<open>requested\<close> and holds no request button. The cards are those that
  \<^verbatim>\<open>createContentCard\<close> made, each with a badge.
\<close>

theorem request_success_marks_all:
  assumes ok: "makeRequest answer = Inr result"
    and badges: "cards_badged d"
  shows "map data_id (document_cards (requestContent p it answer d)) = map data_id (document_cards d)
    \<and> map data_media_type (document_cards (requestContent p it answer d))
        = map data_media_type (document_cards d)
    \<and> length (filter (matches it) (document_cards (requestContent p it answer d)))
        = length (filter (matches it) (document_cards d))
    \<and> list_all (\<lambda>c. badge c = Some Badge_requested \<and> \<not> request_button c)
        (filter (matches it) (document_cards (requestContent p it answer d)))"
proof -
  let ?f = "\<lambda>c. if matches it c then mark_requested c else c"
  have cs: "document_cards (requestContent p it answer d) = map ?f (document_cards d)"
    using ok by (rule requestContent_success_cards)
  have ids: "map data_id (map ?f cs) = map data_id cs" for cs
    by (induction cs) (simp_all add: mark_requested_def)
  have mts: "map data_media_type (map ?f cs) = map data_media_type cs" for cs
    by (induction cs) (simp_all add: mark_requested_def)
  have fl: "filter (matches it) (map ?f cs) = map mark_requested (filter (matches it) cs)" for cs
    by (induction cs) simp_all
  have marked: "list_all (\<lambda>c. badge c = Some Badge_requested \<and> \<not> request_button c)
      (map mark_requested (filter (matches it) cs))"
    if "list_all (\<lambda>c. badge c \<noteq> None) cs" for cs
    using that by (induction cs) (auto simp: mark_requested_def)
  from badges have "list_all (\<lambda>c. badge c \<noteq> None) (document_cards d)"
    by (simp add: cards_badged_def list_all_iff has_badge_def)
  then have "list_all (\<lambda>c. badge c = Some Badge_requested \<and> \<not> request_button c)
      (map mark_requested (filter (matches it) (document_cards d)))"
    by (rule marked)
  then show ?thesis
    unfolding cs ids mts fl by simp
qed

lemma two_cards_document_cards:
  "document_cards two_cards_document
     = [createContentCard some_movie, createContentCard some_movie, createContentCard some_show]"
  by (simp add: two_cards_document_def document_cards_def new_document_def createContentSection_def)

lemma example_cards:
  "createContentCard some_movie
     = \<lparr>data_id = 42, data_media_type = Movie, badge = Some Badge_not_available,
        card_title = Str ''Some Movie'', request_button = True\<rparr>"
  "createContentCard some_show
     = \<lparr>data_id = 1399, data_media_type = Tv, badge = Some Badge_not_available,
        card_title = Str ''Some Show'', request_button = True\<rparr>"
  by (simp_all add: createContentCard_def some_movie_def some_show_def js_or_def)

lemma example_matches:
  "matches some_movie (createContentCard some_movie)"
  "\<not> matches some_movie (createContentCard some_show)"
  by (simp_all add: matches_def createContentCard_def some_movie_def some_show_def)

theorem request_success_marks_all_witness:
  "makeRequest (Responded 200 ''OK'' (Some ())) = Inr ()
   \<and> cards_badged two_cards_document
   \<and> length (filter (matches some_movie) (document_cards two_cards_document)) = 2
   \<and> length (filter (matches some_movie) (document_cards
        (requestContent (new_plugin example_connector) some_movie (Responded 200 ''OK'' (Some ()))
           two_cards_document))) = 2
   \<and> list_all (\<lambda>c. badge c = Some Badge_requested \<and> \<not> request_button c)
        (filter (matches some_movie) (document_cards
          (requestContent (new_plugin example_connector) some_movie (Responded 200 ''OK'' (Some ()))
             two_cards_document)))"
proof -
  have ok: "makeRequest (Responded 200 ''OK'' (Some ())) = Inr ()"
    by (rule makeRequest_ok)
  have badges: "cards_badged two_cards_document"
    by (simp add: cards_badged_def list_all_iff has_badge_def two_cards_document_cards
        createContentCard_def)
  have n: "length (filter (matches some_movie) (document_cards two_cards_document)) = 2"
    by (simp add: two_cards_document_cards example_matches)
  from request_success_marks_all [OF ok badges, of "new_plugin example_connector" some_movie] ok badges n
  show ?thesis by simp
qed

text \<open>
  C10. When the request succeeds, the document holds the same number of cards, a card
  whose identity key differs from the item's is what it was, and a card with the item's
  key differs from what it was in its badge, now \<^verbatim>\<open>requested\<close>, and its request
  button, now gone, and in nothing else.
\<close>

theorem request_success_frame:
  assumes ok: "makeRequest answer = Inr result"
  shows "length (document_cards (requestContent p it answer d)) = length (document_cards d)
    \<and> (\<forall>i < length (document_cards d).
          (\<not> matches it (document_cards d ! i) \<longrightarrow>
             document_cards (requestContent p it answer d) ! i = document_cards d ! i)
        \<and> (matches it (document_cards d ! i) \<longrightarrow>
             document_cards (requestContent p it answer d) ! i
               = (document_cards d ! i)
                   \<lparr>badge := map_option (\<lambda>_. Badge_requested) (badge (document_cards d ! i)),
                    request_button := False\<rparr>))"
proof -
  have cs: "document_cards (requestContent p it answer d)
      = map (\<lambda>c. if matches it c then mark_requested c else c) (document_cards d)"
    using ok by (rule requestContent_success_cards)
  have mr: "mark_requested c = c\<lparr>badge := map_option (\<lambda>_. Badge_requested) (badge c),
      request_button := False\<rparr>" for c
    by (cases "badge c") (simp_all add: mark_requested_def)
  show ?thesis
    unfolding cs by (simp add: mr)
qed

theorem request_success_frame_witness:
  "makeRequest (Responded 200 ''OK'' (Some ())) = Inr ()
   \<and> (2::nat) < length (document_cards two_cards_document)
   \<and> \<not> matches some_movie (document_cards two_cards_document ! 2)
   \<and> document_cards (requestContent (new_plugin example_connector) some_movie
        (Responded 200 ''OK'' (Some ())) two_cards_document) ! 2 = createContentCard some_show
   \<and> matches some_movie (document_cards two_cards_document ! 0)
   \<and> document_cards (requestContent (new_plugin example_connector) some_movie
        (Responded 200 ''OK'' (Some ())) two_cards_document) ! 0
       = \<lparr>data_id = 42, data_media_type = Movie, badge = Some Badge_requested,
          card_title = Str ''Some Movie'', request_button = False\<rparr>"
proof -
  have ok: "makeRequest (Responded 200 ''OK'' (Some ())) = Inr ()"
    by (rule makeRequest_ok)
  have len: "(2::nat) < length (document_cards two_cards_document)"
    "(0::nat) < length (document_cards two_cards_document)"
    by (simp_all add: two_cards_document_cards)
  have m2: "\<not> matches some_movie (document_cards two_cards_document ! 2)"
    by (simp add: two_cards_document_cards example_matches)
  have m0: "matches some_movie (document_cards two_cards_document ! 0)"
    by (simp add: two_cards_document_cards example_matches)
  note F = request_success_frame [OF ok, of "new_plugin example_connector" some_movie two_cards_document]
  from F len(1) m2 have a: "document_cards (requestContent (new_plugin example_connector) some_movie
        (Responded 200 ''OK'' (Some ())) two_cards_document) ! 2 = document_cards two_cards_document ! 2"
    by blast
  from F len(2) m0 have b: "document_cards (requestContent (new_plugin example_connector) some_movie
        (Responded 200 ''OK'' (Some ())) two_cards_document) ! 0
      = (document_cards two_cards_document ! 0)
          \<lparr>badge := map_option (\<lambda>_. Badge_requested) (badge (document_cards two_cards_document ! 0)),
           request_button := False\<rparr>"
    by blast
  from ok len m2 m0 a b show ?thesis
    by (simp add: two_cards_document_cards example_cards)
qed

text \<open>
  C4, as the specification states it, fails: a failed request does not bring the cards
  of the key back to \<^verbatim>\<open>not-available\<close> with the request button. A successful request
  marks the cards but never writes \<^verbatim>\<open>item.available\<close>, so a click on a card still
  opens the details modal, whose button submits the item again. When this second request
  fails, both cards of the item show \<^verbatim>\<open>requested\<close> and hold no request button.
\<close>

theorem failed_request_after_success_counterexample:
  "\<not> available some_movie
   \<and> makeRequest (Responded 200 ''OK'' (Some ())) = Inr ()
   \<and> makeRequest (Responded 500 ''Internal Server Error'' (None :: unit option))
       = Inl (ApiError 500 ''Internal Server Error'')
   \<and> filter (matches some_movie) (document_cards
        (requestContent (new_plugin example_connector) some_movie
           (Responded 500 ''Internal Server Error'' (None :: unit option))
           (requestContent (new_plugin example_connector) some_movie
              (Responded 200 ''OK'' (Some ())) two_cards_document)))
       = [\<lparr>data_id = 42, data_media_type = Movie, badge = Some Badge_requested,
           card_title = Str ''Some Movie'', request_button = False\<rparr>,
          \<lparr>data_id = 42, data_media_type = Movie, badge = Some Badge_requested,
           card_title = Str ''Some Movie'', request_button = False\<rparr>]"
proof -
  have a: "\<not> available some_movie" by (simp add: some_movie_def)
  have ok: "makeRequest (Responded 200 ''OK'' (Some ())) = Inr ()"
    by (rule makeRequest_ok)
  have failed: "makeRequest (Responded 500 ''Internal Server Error'' (None :: unit option))
       = Inl (ApiError 500 ''Internal Server Error'')"
    by (rule makeRequest_500)
  have "document_cards
        (requestContent (new_plugin example_connector) some_movie
           (Responded 500 ''Internal Server Error'' (None :: unit option))
           (requestContent (new_plugin example_connector) some_movie
              (Responded 200 ''OK'' (Some ())) two_cards_document))
      = map (\<lambda>c. if matches some_movie c then mark_requested c else c)
          (document_cards two_cards_document)"
    by (simp add: requestContent_failure_cards [OF failed] requestContent_success_cards [OF ok])
  then have "filter (matches some_movie) (document_cards
        (requestContent (new_plugin example_connector) some_movie
           (Responded 500 ''Internal Server Error'' (None :: unit option))
           (requestContent (new_plugin example_connector) some_movie
              (Responded 200 ''OK'' (Some ())) two_cards_document)))
      = [mark_requested (createContentCard some_movie), mark_requested (createContentCard some_movie)]"
    by (simp add: two_cards_document_cards example_matches)
  then show ?thesis
    using a ok failed by (simp add: example_cards mark_requested_def)
qed

text \<open>
  C4, amended. A failed request changes no card: whatever document the failing answer
  meets, every card is afterwards what it was, so a card of the key that showed
  \<^verbatim>\<open>not-available\<close> with the request button still does and a card that showed
  \<^verbatim>\<open>requested\<close> without it still does. Exactly one notification is appended, of type
  error, and its message carries the item's display name.
\<close>

theorem request_failure_leaves_cards:
  assumes failed: "makeRequest answer = Inl err"
  shows "document_cards (requestContent_finish it answer d') = document_cards d'
    \<and> document_cards (requestContent p it answer d) = document_cards d
    \<and> notifications (requestContent p it answer d)
        = notifications d
          @ [\<lparr>n_id = next_id d, n_title = ''Error'',
              n_message = ''Failed to request '' @ display_name it @ ''.'',
              n_type = Error, fade_out = False\<rparr>]
    \<and> length (filter (\<lambda>n. n_type n = Error) (notifications (requestContent p it answer d)))
        = Suc (length (filter (\<lambda>n. n_type n = Error) (notifications d)))"
proof -
  have fin: "document_cards (requestContent_finish it answer d') = document_cards d'"
    using failed by (simp add: requestContent_finish_def)
  have cs: "document_cards (requestContent p it answer d) = document_cards d"
    using failed by (rule requestContent_failure_cards)
  have ns: "notifications (requestContent p it answer d)
        = notifications d
          @ [\<lparr>n_id = next_id d, n_title = ''Error'',
              n_message = ''Failed to request '' @ display_name it @ ''.'',
              n_type = Error, fade_out = False\<rparr>]"
    using failed
    by (simp add: requestContent_def requestContent_finish_def requestContent_start_def
        showNotification_def doc_emit_def)
  show ?thesis
    unfolding fin cs ns by simp
qed

theorem request_failure_leaves_cards_witness:
  "makeRequest (Responded 500 ''Internal Server Error'' (None :: unit option))
     = Inl (ApiError 500 ''Internal Server Error'')
   \<and> document_cards
        (requestContent (new_plugin example_connector) some_movie
           (Responded 500 ''Internal Server Error'' (None :: unit option)) two_cards_document)
       = [createContentCard some_movie, createContentCard some_movie, createContentCard some_show]
   \<and> badge (createContentCard some_movie) = Some Badge_not_available
   \<and> request_button (createContentCard some_movie)
   \<and> map n_type (notifications
          (requestContent (new_plugin example_connector) some_movie
             (Responded 500 ''Internal Server Error'' (None :: unit option)) two_cards_document))
       = [Error]
   \<and> map n_message (notifications
          (requestContent (new_plugin example_connector) some_movie
             (Responded 500 ''Internal Server Error'' (None :: unit option)) two_cards_document))
       = [''Failed to request Some Movie.'']"
proof -
  have failed: "makeRequest (Responded 500 ''Internal Server Error'' (None :: unit option))
     = Inl (ApiError 500 ''Internal Server Error'')"
    by (rule makeRequest_500)
  have nm: "display_name some_movie = ''Some Movie''"
    by (simp add: display_name_def some_movie_def js_or_def)
  have none: "notifications two_cards_document = []"
    by (simp add: two_cards_document_def new_document_def)
  from request_failure_leaves_cards [OF failed, of some_movie two_cards_document
      "new_plugin example_connector" two_cards_document] failed
  show ?thesis by (simp add: nm none two_cards_document_cards example_cards)
qed

text \<open>
  C2, as the specification states it, fails: nothing is set to pending before the remote
  call. When \<^verbatim>\<open>requestContent\<close> reaches its \<^verbatim>\<open>await\<close> the request has been sent,
  and both cards of the item still show \<^verbatim>\<open>not-available\<close> and hold the request
  button.
\<close>

theorem optimistic_pending_counterexample:
  "doc_trace (requestContent_start (new_plugin example_connector) some_movie two_cards_document)
     = [Fetch (requestContent_call example_connector 42 Movie)]
   \<and> filter (matches some_movie)
        (document_cards (requestContent_start (new_plugin example_connector) some_movie
           two_cards_document))
       = [\<lparr>data_id = 42, data_media_type = Movie, badge = Some Badge_not_available,
           card_title = Str ''Some Movie'', request_button = True\<rparr>,
          \<lparr>data_id = 42, data_media_type = Movie, badge = Some Badge_not_available,
           card_title = Str ''Some Movie'', request_button = True\<rparr>]"
proof -
  have "doc_trace two_cards_document = []"
    by (simp add: two_cards_document_def new_document_def)
  then have t: "doc_trace (requestContent_start (new_plugin example_connector) some_movie two_cards_document)
     = [Fetch (requestContent_call example_connector 42 Movie)]"
    by (simp add: requestContent_start_def doc_emit_def new_plugin_def some_movie_def)
  have "document_cards (requestContent_start (new_plugin example_connector) some_movie
           two_cards_document) = document_cards two_cards_document"
    by (simp add: requestContent_start_def)
  then show ?thesis
    using t by (simp add: two_cards_document_cards example_matches) (simp add: example_cards)
qed

text \<open>
  C2, amended. \<^verbatim>\<open>requestContent\<close> sends the remote request at once, for any item:
  up to the \<^verbatim>\<open>await\<close> no card and no notification changes, and the request is the
  one effect. There is no pending state. The cards with the item's key change only
  after the answer has arrived and is a success: then each of them has lost its request
  button and its badge, if it has one, shows \<^verbatim>\<open>requested\<close>.
\<close>

theorem request_sent_before_any_update:
  "document_cards (requestContent_start p it d) = document_cards d
   \<and> notifications (requestContent_start p it d) = notifications d
   \<and> doc_trace (requestContent_start p it d)
       = doc_trace d @ [Fetch (requestContent_call (serverConnector p) (item_id it) (item_mediaType it))]
   \<and> (makeRequest answer = Inr result \<longrightarrow>
        list_all (\<lambda>c. badge c \<in> {None, Some Badge_requested} \<and> \<not> request_button c)
          (filter (matches it) (document_cards (requestContent_finish it answer d'))))"
proof -
  have 1: "document_cards (requestContent_start p it d) = document_cards d"
    by (simp add: requestContent_start_def)
  have 2: "notifications (requestContent_start p it d) = notifications d"
    by (simp add: requestContent_start_def doc_emit_def)
  have 3: "doc_trace (requestContent_start p it d)
       = doc_trace d @ [Fetch (requestContent_call (serverConnector p) (item_id it) (item_mediaType it))]"
    by (simp add: requestContent_start_def doc_emit_def)
  have 4: "list_all (\<lambda>c. badge c \<in> {None, Some Badge_requested} \<and> \<not> request_button c)
          (filter (matches it) (document_cards (requestContent_finish it answer d')))"
    if ok: "makeRequest answer = Inr result"
  proof -
    let ?f = "\<lambda>c. if matches it c then mark_requested c else c"
    have cs: "document_cards (requestContent_finish it answer d') = map ?f (document_cards d')"
      using ok by (simp add: requestContent_finish_def document_cards_map_cards)
    have "list_all (\<lambda>c. badge c \<in> {None, Some Badge_requested} \<and> \<not> request_button c)
          (filter (matches it) (map ?f cs))" for cs
      by (induction cs) (auto simp: mark_requested_def split: option.splits)
    then show ?thesis unfolding cs .
  qed
  from 1 2 3 4 show ?thesis by blast
qed

theorem request_sent_before_any_update_witness:
  "document_cards (requestContent_start (new_plugin example_connector) some_movie two_cards_document)
     = document_cards two_cards_document
   \<and> makeRequest (Responded 200 ''OK'' (Some ())) = Inr ()
   \<and> list_all (\<lambda>c. badge c \<in> {None, Some Badge_requested} \<and> \<not> request_button c)
        (filter (matches some_movie) (document_cards
           (requestContent_finish some_movie (Responded 200 ''OK'' (Some ())) two_cards_document)))"
proof -
  have ok: "makeRequest (Responded 200 ''OK'' (Some ())) = Inr ()"
    by (rule makeRequest_ok)
  from request_sent_before_any_update [of "new_plugin example_connector" some_movie
      two_cards_document "Responded 200 ''OK'' (Some ())" "()" two_cards_document] ok
  show ?thesis by simp
qed

section \<open>The life of a notification\<close>

lemma earliest_None: "earliest ts = None \<longleftrightarrow> ts = []"
  by (cases ts) (auto split: option.splits)

lemma earliest_least: "earliest ts = Some u \<Longrightarrow> t \<in> set ts \<Longrightarrow> fst u \<le> fst t"
  by (induction ts arbitrary: u) (auto simp: earliest_None split: option.splits if_splits)

lemma state_fade_other:
  "j \<noteq> i \<Longrightarrow>
     map fade_out (filter (\<lambda>n. n_id n = i) (map (\<lambda>n. if n_id n = j then n\<lparr>fade_out := True\<rparr> else n) ns))
       = map fade_out (filter (\<lambda>n. n_id n = i) ns)"
  by (induction ns) auto

lemma state_fade_same:
  "map fade_out (filter (\<lambda>n. n_id n = i) (map (\<lambda>n. if n_id n = i then n\<lparr>fade_out := True\<rparr> else n) ns))
     = map (\<lambda>_. True) (filter (\<lambda>n. n_id n = i) ns)"
  by (induction ns) auto

lemma state_remove_other:
  "j \<noteq> i \<Longrightarrow>
     filter (\<lambda>n. n_id n \<noteq> j \<and> n_id n = i) ns = filter (\<lambda>n. n_id n = i) ns"
  by (induction ns) auto

lemma state_remove_same:
  "filter (\<lambda>n. n_id n = i) (filter (\<lambda>n. n_id n \<noteq> i) ns) = []"
  by (induction ns) auto

lemma timers_of_fire_other:
  "target (due, a) \<noteq> i \<Longrightarrow> timers_of i (fire a d) = timers_of i d"
  by (cases a) (auto simp: timers_of_def)

lemma state_fire_other:
  "target (due, a) \<noteq> i \<Longrightarrow> notification_state i (fire a d) = notification_state i d"
  by (cases a) (auto simp: notification_state_def state_fade_other state_remove_other)

lemma clock_fire [simp]: "clock (fire a d) = clock d"
  by (cases a) simp_all

lemma timers_of_remove1:
  "timers_of i (d\<lparr>timers := remove1 x (timers d), clock := c\<rparr>) = remove1 x (timers_of i d)"
  by (simp add: timers_of_def filter_remove1)

lemma state_timers_clock [simp]:
  "notification_state i (d\<lparr>timers := ts, clock := c\<rparr>) = notification_state i d"
  by (simp add: notification_state_def)

lemma not_in_timers_of: "target x \<noteq> i \<Longrightarrow> x \<notin> set (timers_of i d)"
  by (simp add: timers_of_def)

lemma in_timers_of: "x \<in> set (timers d) \<Longrightarrow> target x = i \<Longrightarrow> x \<in> set (timers_of i d)"
  by (simp add: timers_of_def)

lemma timers_of_subset: "x \<in> set (timers_of i d) \<Longrightarrow> x \<in> set (timers d)"
  by (simp add: timers_of_def)

lemma step_other:
  assumes e: "earliest (timers d) = Some x" and o: "target x \<noteq> i"
  shows "timers_of i (fire_next x d) = timers_of i d"
    and "notification_state i (fire_next x d) = notification_state i d"
    and "clock (fire_next x d) = max (clock d) (fst x)"
proof -
  obtain due a where x: "x = (due, a)" by (cases x)
  from o x have "timers_of i (fire_next x d) = remove1 x (timers_of i d)"
    by (simp add: fire_next_def timers_of_fire_other timers_of_remove1)
  also from o have "\<dots> = timers_of i d"
    by (simp add: remove1_idem not_in_timers_of)
  finally show "timers_of i (fire_next x d) = timers_of i d" .
  from o x show "notification_state i (fire_next x d) = notification_state i d"
    by (simp add: fire_next_def state_fire_other)
  show "clock (fire_next x d) = max (clock d) (fst x)"
    by (simp add: fire_next_def)
qed

lemma step_showing:
  assumes e: "earliest (timers d) = Some x" and s: "showing i t d"
  shows "showing i t (fire_next x d) \<or> leaving i t (fire_next x d)"
proof (cases "target x = i")
  case False
  from s have "(t + 5000, Add_fade_out i) \<in> set (timers_of i d)"
    by (simp add: showing_def)
  then have "(t + 5000, Add_fade_out i) \<in> set (timers d)" by (rule timers_of_subset)
  from earliest_least [OF e this] have "fst x \<le> t + 5000" by simp
  with s step_other [OF e False] have "showing i t (fire_next x d)"
    by (simp add: showing_def)
  then show ?thesis ..
next
  case True
  from e have "x \<in> set (timers d)" by (rule earliest_in_set)
  then have "x \<in> set (timers_of i d)" using True by (rule in_timers_of)
  with s have x: "x = (t + 5000, Add_fade_out i)" by (simp add: showing_def)
  from s have c: "max (clock d) (t + 5000) = t + 5000" by (simp add: showing_def)
  from s have st: "notification_state i d = [False]" by (simp add: showing_def)
  then have "length (filter (\<lambda>n. n_id n = i) (notifications d)) = 1"
    unfolding notification_state_def by (metis length_map length_Cons list.size(3) One_nat_def)
  then have "map (\<lambda>_. True) (filter (\<lambda>n. n_id n = i) (notifications d)) = [True]"
    by (cases "filter (\<lambda>n. n_id n = i) (notifications d)") simp_all
  then have n: "notification_state i (fire_next x d) = [True]"
    by (simp add: x fire_next_def notification_state_def state_fade_same)
  from s have "remove1 x (timers_of i d) = []" by (simp add: showing_def x)
  then have "filter (\<lambda>t. target t = i) (remove1 x (timers d)) = []"
    by (simp add: timers_of_def filter_remove1)
  then have ts: "timers_of i (fire_next x d) = [(t + 5500, Remove_notification i)]"
    by (simp add: x fire_next_def timers_of_def c)
  have "clock (fire_next x d) = t + 5000"
    by (simp add: x fire_next_def c)
  with n ts have "leaving i t (fire_next x d)" by (simp add: leaving_def)
  then show ?thesis ..
qed

lemma step_leaving:
  assumes e: "earliest (timers d) = Some x" and s: "leaving i t d"
  shows "leaving i t (fire_next x d) \<or> gone i t (fire_next x d)"
proof (cases "target x = i")
  case False
  from s have "(t + 5500, Remove_notification i) \<in> set (timers_of i d)"
    by (simp add: leaving_def)
  then have "(t + 5500, Remove_notification i) \<in> set (timers d)" by (rule timers_of_subset)
  from earliest_least [OF e this] have "fst x \<le> t + 5500" by simp
  with s step_other [OF e False] have "leaving i t (fire_next x d)"
    by (simp add: leaving_def le_max_iff_disj)
  then show ?thesis ..
next
  case True
  from e have "x \<in> set (timers d)" by (rule earliest_in_set)
  then have "x \<in> set (timers_of i d)" using True by (rule in_timers_of)
  with s have x: "x = (t + 5500, Remove_notification i)" by (simp add: leaving_def)
  from s have c: "max (clock d) (t + 5500) = t + 5500" by (simp add: leaving_def)
  have n: "notification_state i (fire_next x d) = []"
    by (simp add: x fire_next_def notification_state_def state_remove_same)
  from s have "remove1 x (timers_of i d) = []" by (simp add: leaving_def x)
  then have "filter (\<lambda>t. target t = i) (remove1 x (timers d)) = []"
    by (simp add: timers_of_def filter_remove1)
  then have ts: "timers_of i (fire_next x d) = []"
    by (simp add: x fire_next_def timers_of_def)
  have "clock (fire_next x d) = t + 5500"
    by (simp add: x fire_next_def c)
  with n ts have "gone i t (fire_next x d)" by (simp add: gone_def)
  then show ?thesis ..
qed

lemma step_gone:
  assumes e: "earliest (timers d) = Some x" and s: "gone i t d"
  shows "gone i t (fire_next x d)"
proof -
  from e have "x \<in> set (timers d)" by (rule earliest_in_set)
  moreover from s have "timers_of i d = []" by (simp add: gone_def)
  ultimately have o: "target x \<noteq> i"
    using in_timers_of by fastforce
  with s step_other [OF e o] show ?thesis by (simp add: gone_def le_max_iff_disj)
qed

lemma step_lifecycle:
  "earliest (timers d) = Some x \<Longrightarrow> lifecycle i t d \<Longrightarrow> lifecycle i t (fire_next x d)"
  unfolding lifecycle_def using step_showing step_leaving step_gone by blast

lemma clock_fire_next: "clock (fire_next x d) = max (clock d) (fst x)"
  by (simp add: fire_next_def)

lemma advance_to_rule:
  assumes inv: "P d"
    and step: "\<And>d x. P d \<Longrightarrow> earliest (timers d) = Some x \<Longrightarrow> fst x \<le> T \<Longrightarrow> P (fire_next x d)"
    and stop: "\<And>d. P d \<Longrightarrow> (\<forall>x \<in> set (timers d). T < fst x) \<Longrightarrow> Q (d\<lparr>clock := max (clock d) T\<rparr>)"
  shows "Q (advance_to T d)"
  using assms
proof (induction T d rule: advance_to.induct)
  case (1 T d)
  note inv = "1.prems"(1) and step = "1.prems"(2) and stop = "1.prems"(3)
  show ?case
  proof (cases "earliest (timers d)")
    case None
    then have "timers d = []" by (simp add: earliest_None)
    then have "\<forall>x \<in> set (timers d). T < fst x" by simp
    with inv have "Q (d\<lparr>clock := max (clock d) T\<rparr>)" by (rule stop)
    with None show ?thesis by (subst advance_to.simps) simp
  next
    case (Some x)
    show ?thesis
    proof (cases "fst x \<le> T")
      case True
      from inv Some True have "P (fire_next x d)" by (rule step)
      with Some True have "Q (advance_to T (fire_next x d))"
        using step stop by (rule "1.IH")
      with Some True show ?thesis by (subst advance_to.simps) simp
    next
      case False
      have "\<forall>y \<in> set (timers d). T < fst y"
      proof
        fix y assume "y \<in> set (timers d)"
        from earliest_least [OF Some this] False show "T < fst y" by simp
      qed
      with inv have "Q (d\<lparr>clock := max (clock d) T\<rparr>)" by (rule stop)
      with Some False show ?thesis by (subst advance_to.simps) simp
    qed
  qed
qed

text \<open>
  C8. A notification is shown at time \<open>t\<close>; then time passes until \<open>T\<close>, each timer
  firing when it is due. Before \<open>t + 5000\<close> the element is in the list without the class
  \<^verbatim>\<open>fade-out\<close>; from \<open>t + 5000\<close> on, and before \<open>t + 5500\<close>, it is in the list with
  the class, which starts the exit animation; from \<open>t + 5500\<close> on it is not in the list.
  This holds whatever other notifications and timers the document holds.
\<close>

theorem notification_lifecycle:
  assumes wf: "well_formed d" and later: "clock d \<le> T"
  shows "notification_state (next_id d) (advance_to T (showNotification ttl msg sev d))
     = (if T < clock d + 5000 then [False] else if T < clock d + 5500 then [True] else [])"
proof -
  let ?i = "next_id d" and ?t = "clock d"
  let ?d = "showNotification ttl msg sev d"
  let ?P = "\<lambda>d. lifecycle ?i ?t d \<and> clock d \<le> T"
  let ?Q = "\<lambda>d'. notification_state ?i d'
     = (if T < ?t + 5000 then [False] else if T < ?t + 5500 then [True] else [])"
  from wf have "filter (\<lambda>n. n_id n = ?i) (notifications d) = []"
    by (auto simp: well_formed_def list_all_iff filter_empty_conv)
  moreover from wf have "filter (\<lambda>x. target x = ?i) (timers d) = []"
    by (auto simp: well_formed_def list_all_iff filter_empty_conv)
  ultimately have "showing ?i ?t ?d"
    by (simp add: showing_def showNotification_def timers_of_def notification_state_def)
  with later have start: "?P ?d"
    by (simp add: lifecycle_def showNotification_def)
  have step: "?P (fire_next x e)" if "?P e" "earliest (timers e) = Some x" "fst x \<le> T" for e x
    using that step_lifecycle [of e x ?i ?t] by (simp add: clock_fire_next)
  have stop: "?Q (e\<lparr>clock := max (clock e) T\<rparr>)" if p: "?P e" and q: "\<forall>x \<in> set (timers e). T < fst x" for e
  proof -
    have n: "notification_state ?i (e\<lparr>clock := max (clock e) T\<rparr>) = notification_state ?i e"
      by (simp add: notification_state_def)
    from p consider "showing ?i ?t e" | "leaving ?i ?t e" | "gone ?i ?t e"
      unfolding lifecycle_def by blast
    then show ?thesis
    proof cases
      case 1
      then have "(?t + 5000, Add_fade_out ?i) \<in> set (timers_of ?i e)" by (simp add: showing_def)
      then have "(?t + 5000, Add_fade_out ?i) \<in> set (timers e)" by (rule timers_of_subset)
      with q have "T < ?t + 5000" by fastforce
      with 1 show ?thesis unfolding n by (simp add: showing_def)
    next
      case 2
      then have "(?t + 5500, Remove_notification ?i) \<in> set (timers_of ?i e)" by (simp add: leaving_def)
      then have "(?t + 5500, Remove_notification ?i) \<in> set (timers e)" by (rule timers_of_subset)
      with q have "T < ?t + 5500" by fastforce
      moreover from 2 p have "?t + 5000 \<le> T" by (simp add: leaving_def)
      ultimately show ?thesis using 2 unfolding n by (simp add: leaving_def)
    next
      case 3
      with p have "?t + 5500 \<le> T" by (simp add: gone_def)
      with 3 show ?thesis unfolding n by (simp add: gone_def)
    qed
  qed
  from start step stop show ?thesis by (rule advance_to_rule [where P = ?P and Q = ?Q])
qed

lemma well_formed_new_document: "well_formed new_document"
  by (simp add: well_formed_def new_document_def)

theorem notification_lifecycle_witness:
  "well_formed new_document
   \<and> clock new_document \<le> 4999
   \<and> notification_state 0 (advance_to 4999 (showNotification ''Error'' ''Failed'' Error new_document)) = [False]
   \<and> notification_state 0 (advance_to 5000 (showNotification ''Error'' ''Failed'' Error new_document)) = [True]
   \<and> notification_state 0 (advance_to 5499 (showNotification ''Error'' ''Failed'' Error new_document)) = [True]
   \<and> notification_state 0 (advance_to 5500 (showNotification ''Error'' ''Failed'' Error new_document)) = []"
proof -
  have wf: "well_formed new_document" by (rule well_formed_new_document)
  have c: "clock new_document = 0" "next_id new_document = 0"
    by (simp_all add: new_document_def)
  note L = notification_lifecycle [OF wf, of _ "''Error''" "''Failed''" Error]
  from L [of 4999] L [of 5000] L [of 5499] L [of 5500] wf show ?thesis
    by (simp add: c)
qed

text \<open>
  The documents the plugin reaches are well formed: the empty document is, and showing a
  notification, the passing of time and a request keep a document so.
\<close>

lemma well_formed_showNotification: "well_formed d \<Longrightarrow> well_formed (showNotification t m s d)"
  by (auto simp: well_formed_def showNotification_def list_all_iff)

lemma well_formed_fire_next:
  assumes "well_formed d" and "x \<in> set (timers d)"
  shows "well_formed (fire_next x d)"
proof -
  obtain due a where x: "x = (due, a)" by (cases x)
  from assms show ?thesis
    unfolding x by (cases a) (auto simp: well_formed_def fire_next_def list_all_iff dest: notin_set_remove1)
qed

lemma well_formed_advance_to: "well_formed d \<Longrightarrow> well_formed (advance_to T d)"
proof (rule advance_to_rule [where P = well_formed])
  fix e x assume "well_formed e" and "earliest (timers e) = Some x"
  then show "well_formed (fire_next x e)"
    by (simp add: well_formed_fire_next earliest_in_set)
next
  fix e assume "well_formed e"
  then show "well_formed (e\<lparr>clock := max (clock e) T\<rparr>)"
    by (simp add: well_formed_def)
qed

lemma well_formed_requestContent:
  "well_formed d \<Longrightarrow> well_formed (requestContent p it answer d)"
proof -
  have e: "well_formed (doc_emit x d)" if "well_formed d" for x d
    using that by (simp add: well_formed_def doc_emit_def)
  have m: "well_formed (map_cards f d)" if "well_formed d" for f d
    using that by (simp add: well_formed_def map_cards_def)
  assume "well_formed d"
  then show ?thesis
    by (simp add: requestContent_def requestContent_start_def requestContent_finish_def
        e m well_formed_showNotification split: sum.splits)
qed

section \<open>The cards the plugin draws hold a badge\<close>

lemma cards_badged_new_document: "cards_badged new_document"
  by (simp add: cards_badged_def document_cards_def new_document_def)

lemma document_cards_set_children:
  "document_cards (set_children ps d)
     = (if container d = None then [] else concat (map page_cards ps))"
  by (cases "container d") (simp_all add: document_cards_def set_children_def)

lemma document_cards_append_child:
  "document_cards (append_child pg d)
     = (if container d = None then [] else document_cards d @ page_cards pg)"
  by (cases "container d") (simp_all add: document_cards_def append_child_def)

lemma container_doc_emit [simp]: "container (doc_emit e d) = container d"
  by (simp add: doc_emit_def)

lemma container_set_children [simp]: "container (set_children ps d) = None \<longleftrightarrow> container d = None"
  by (simp add: set_children_def)

lemma group_section_badged:
  "list_all has_badge (concat (map section_cards (group_section t g)))"
  by (cases g) (simp_all add: group_section_def createContentSection_def createContentCard_def
      list_all_iff has_badge_def)

lemma content_sections_badged:
  "list_all has_badge (concat (map section_cards (content_sections c)))"
  using group_section_badged [of "''Movies''" "movies c"]
    group_section_badged [of "''TV Shows''" "tvShows c"]
  by (simp add: content_sections_def)

lemma cards_badged_finish:
  "cards_badged d \<Longrightarrow> cards_badged (renderContentPage_finish pg answer d)"
  by (simp add: cards_badged_def renderContentPage_finish_def document_cards_append_child
      content_sections_badged split: sum.splits)

lemma cards_badged_renderCustomView:
  "cards_badged d \<Longrightarrow> cards_badged (renderCustomView p path answer d)"
proof -
  assume b: "cards_badged d"
  have e: "cards_badged (set_children [] d)"
    by (simp add: cards_badged_def document_cards_set_children)
  have n: "cards_badged (set_children [Not_found k] e)" for k e
    by (simp add: cards_badged_def document_cards_set_children)
  have f: "cards_badged (renderContentPage_finish pg answer (doc_emit x (set_children [] d)))" for pg x
    using e by (intro cards_badged_finish) (simp add: cards_badged_def)
  show ?thesis
  proof (cases "container d")
    case None
    with b show ?thesis by (simp add: renderCustomView_def renderCustomView_start_def)
  next
    case (Some ps)
    show ?thesis
    proof (cases "resolve path")
      case BrowseAll
      with Some e show ?thesis
        by (simp add: renderCustomView_def renderCustomView_start_def renderBrowsePage_def
            cards_badged_def document_cards_append_child)
    next
      case (NetworkDetail i)
      with Some n f show ?thesis
        by (simp add: renderCustomView_def renderCustomView_start_def
            renderNetworkContentPage_start_def Let_def split: lookup.splits)
    next
      case (StudioDetail i)
      with Some n f show ?thesis
        by (simp add: renderCustomView_def renderCustomView_start_def
            renderStudioContentPage_start_def Let_def split: lookup.splits)
    next
      case Unrecognized
      with Some e show ?thesis
        by (simp add: renderCustomView_def renderCustomView_start_def)
    qed
  qed
qed

lemma cards_badged_requestContent:
  "cards_badged d \<Longrightarrow> cards_badged (requestContent p it answer d)"
  by (cases "makeRequest answer")
    (auto simp: cards_badged_def requestContent_failure_cards requestContent_success_cards
      list_all_iff mark_requested_def has_badge_def)

end
